theory Spec2Isabelle
  imports Main "HOL-Library.Word" "HOL-Library.Multiset"
begin

unbundle bit_operations_syntax

section \<open>Text: Python strings over the code points below 256\<close>

text \<open>
  Titles, class names and URLs are Python \<open>str\<close> values. They are modelled as
  \<open>string\<close>, every \<open>char\<close> standing for the code point of the same number, so the
  model covers text made of code points 0..255. The character classes below are the ones
  Python 3 uses on that range: \<open>str.lower\<close>, \<open>str.strip\<close> (which strips
  \<open>str.isspace\<close> characters) and, for \<open>re\<close> on \<open>str\<close> patterns, \<open>\d\<close>, \<open>\w\<close> and
  \<open>[A-Z]\<close>.
\<close>

definition code_point :: "char \<Rightarrow> nat" where
  "code_point c = of_char c"

definition in_range :: "nat \<Rightarrow> nat \<Rightarrow> char \<Rightarrow> bool" where
  "in_range lo hi c = (lo \<le> code_point c \<and> code_point c \<le> hi)"

definition is_upper_AZ :: "char \<Rightarrow> bool" where
  "is_upper_AZ c = in_range 65 90 c"

definition is_digit :: "char \<Rightarrow> bool" where
  "is_digit c = in_range 48 57 c"

definition is_word :: "char \<Rightarrow> bool" where
  "is_word c =
     (in_range 48 57 c \<or> in_range 65 90 c \<or> code_point c = 95 \<or> in_range 97 122 c \<or>
      code_point c = 170 \<or> in_range 178 179 c \<or> code_point c = 181 \<or>
      in_range 185 186 c \<or> in_range 188 190 c \<or> in_range 192 214 c \<or>
      in_range 216 246 c \<or> in_range 248 255 c)"

definition is_space :: "char \<Rightarrow> bool" where
  "is_space c =
     (in_range 9 13 c \<or> in_range 28 32 c \<or> code_point c = 133 \<or> code_point c = 160)"

definition lower_char :: "char \<Rightarrow> char" where
  "lower_char c =
     (if in_range 65 90 c \<or> in_range 192 214 c \<or> in_range 216 222 c
      then char_of (code_point c + 32) else c)"

definition lower :: "string \<Rightarrow> string" where
  "lower s = map lower_char s"

definition strip :: "string \<Rightarrow> string" where
  "strip s = rev (dropWhile is_space (rev (dropWhile is_space s)))"

definition startswith :: "string \<Rightarrow> string \<Rightarrow> bool" where
  "startswith s p = (take (length p) s = p)"

text \<open>\<open>str_in sub s\<close> is Python's \<open>sub in s\<close>: \<open>sub\<close> occurs in \<open>s\<close> as a contiguous run.\<close>

fun str_in :: "string \<Rightarrow> string \<Rightarrow> bool" where
  "str_in sub [] = (sub = [])"
| "str_in sub (c # cs) = (startswith (c # cs) sub \<or> str_in sub cs)"

subsection \<open>The profile-name pattern\<close>

text \<open>
  \<open>re.search(r'\b[A-Z]{2}\d+\b', title)\<close>. A word boundary \<open>\b\<close> stands between two
  neighbours of which exactly one is a word character; the ends of the text count as
  non-word. \<open>\d+\<close> may stop after any number \<open>k \<ge> 1\<close> of digits (the matcher
  backtracks), provided a boundary follows.
\<close>

definition word_at :: "char option \<Rightarrow> bool" where
  "word_at c = (case c of None \<Rightarrow> False | Some x \<Rightarrow> is_word x)"

definition word_boundary :: "char option \<Rightarrow> char option \<Rightarrow> bool" where
  "word_boundary before after = (word_at before \<noteq> word_at after)"

definition char_at :: "string \<Rightarrow> nat \<Rightarrow> char option" where
  "char_at s i = (if i < length s then Some (s ! i) else None)"

definition digits_then_boundary :: "string \<Rightarrow> bool" where
  "digits_then_boundary rest =
     (\<exists>k \<in> set [1 ..< Suc (length rest)].
        (\<forall>d \<in> set (take k rest). is_digit d) \<and>
        word_boundary (char_at rest (k - 1)) (char_at rest k))"

definition match_here :: "char option \<Rightarrow> string \<Rightarrow> bool" where
  "match_here before s =
     (case s of
        a # b # rest \<Rightarrow>
          word_boundary before (Some a) \<and> is_upper_AZ a \<and> is_upper_AZ b \<and>
          digits_then_boundary rest
      | _ \<Rightarrow> False)"

fun search_from :: "char option \<Rightarrow> string \<Rightarrow> bool" where
  "search_from before [] = False"
| "search_from before (c # cs) = (match_here before (c # cs) \<or> search_from (Some c) cs)"

definition re_search_profile :: "string \<Rightarrow> bool" where
  "re_search_profile s = search_from None s"

section \<open>The desktop: windows, geometry, the calls an action dispatches\<close>

type_synonym hwnd = nat

record rect =
  rect_left :: int
  rect_top :: int
  rect_right :: int
  rect_bottom :: int

datatype os_call =
    ShowWindow hwnd int
  | SetForegroundWindow hwnd
  | SetWindowPos hwnd int int int int int
  | GetWindowRect hwnd
  | KeyPress string
  | KeyWrite string
  | Sleep nat

text \<open>
  The exceptions of the model. \<open>Raised c\<close> is the exception the call \<open>c\<close> raised itself,
  such as the \<open>ctypes.ArgumentError\<close> of a call whose argument cannot be marshalled.
\<close>

datatype exn = Raised os_call | ZeroDivisionError | KeyError | ValueError

text \<open>
  The state of the desktop as the program can observe and change it.
  \<^item> \<open>top_level\<close>: the handles \<open>EnumWindows\<close> passes to its callback, in that order;
  \<^item> \<open>visible\<close>, \<open>window_text\<close>, \<open>class_name\<close>: the answers of \<open>IsWindowVisible\<close>,
    \<open>GetWindowTextW\<close> and \<open>GetClassNameW\<close>;
  \<^item> \<open>creation_filetime\<close>: the creation \<open>FILETIME\<close> of the owning process as
    (\<open>dwLowDateTime\<close>, \<open>dwHighDateTime\<close>), or \<open>None\<close> when \<open>OpenProcess\<close> or
    \<open>GetProcessTimes\<close> fails;
  \<^item> \<open>window_rect\<close>: the rectangle \<open>GetWindowRect\<close> reports for a restored window, and
    the one \<open>SetWindowPos\<close> sets;
  \<^item> \<open>work_area_rect\<close>, \<open>screen_size\<close>: \<open>SPI_GETWORKAREA\<close> and the primary screen's
    \<open>SM_CXSCREEN\<close>, \<open>SM_CYSCREEN\<close>;
  \<^item> \<open>call_log\<close>: every call the actions have dispatched so far, oldest first (a call that
    raised is logged too: it was attempted);
  \<^item> \<open>faults\<close>: which calls raise. Given the calls dispatched so far and the next call,
    it says whether that call raises an exception instead of taking effect. The
    functions of \<open>user32\<close> are called through \<open>ctypes.windll\<close> and report a failure of
    the window manager (a closed window, a stale handle) by their return value, which
    the program never reads: such a failure raises nothing. What raises is the binding
    itself, when it cannot marshal an argument (\<open>ctypes_raises\<close> below), and the
    keyboard library. Theorems stated for every \<open>faults\<close> hold whichever calls raise.
\<close>

record world =
  top_level :: "hwnd list"
  visible :: "hwnd \<Rightarrow> bool"
  window_text :: "hwnd \<Rightarrow> string"
  class_name :: "hwnd \<Rightarrow> string"
  creation_filetime :: "hwnd \<Rightarrow> (32 word \<times> 32 word) option"
  window_rect :: "hwnd \<Rightarrow> rect"
  work_area_rect :: rect
  screen_size :: "int \<times> int"
  call_log :: "os_call list"
  faults :: "os_call list \<Rightarrow> os_call \<Rightarrow> bool"

definition SW_RESTORE :: int where
  "SW_RESTORE = 9"

definition SWP_NOZORDER :: int where
  "SWP_NOZORDER = 4"

definition PROFILE_INDICATORS :: "string list" where
  "PROFILE_INDICATORS = [''whoerip'', ''whoer'', ''mimic'']"

definition EXCLUDE_INDICATORS :: "string list" where
  "EXCLUDE_INDICATORS = [''multilogin x app'', ''multilogin app'']"

text \<open>\<open>PROFILE_PATTERNS\<close> holds one regular expression; each entry here is its search.\<close>

definition PROFILE_PATTERNS :: "(string \<Rightarrow> bool) list" where
  "PROFILE_PATTERNS = [re_search_profile]"

section \<open>Reading window metadata\<close>

definition get_work_area :: "world \<Rightarrow> int \<times> int" where
  "get_work_area w =
     (let r = work_area_rect w;
          work_w = min (rect_right r - rect_left r) (fst (screen_size w));
          work_h = min (rect_bottom r - rect_top r) (snd (screen_size w))
      in (work_w, work_h))"

definition get_window_title :: "world \<Rightarrow> hwnd \<Rightarrow> string" where
  "get_window_title w h =
     (if length (window_text w h) = 0 then [] else window_text w h)"

definition get_window_class :: "world \<Rightarrow> hwnd \<Rightarrow> string" where
  "get_window_class w h = class_name w h"

definition get_process_creation_time :: "world \<Rightarrow> hwnd \<Rightarrow> int" where
  "get_process_creation_time w h =
     (case creation_filetime w h of
        None \<Rightarrow> 0
      | Some (lo, hi) \<Rightarrow> (push_bit 32 (uint hi)) OR (uint lo))"

section \<open>The classifier\<close>

definition is_profile_window :: "world \<Rightarrow> hwnd \<Rightarrow> bool" where
  "is_profile_window w h =
     (if \<not> visible w h then False
      else
        let title = get_window_title w h;
            title_lower = lower title;
            cls = lower (get_window_class w h)
        in
          if title = [] then False
          else if \<exists>exclude \<in> set EXCLUDE_INDICATORS. str_in exclude title_lower then False
          else if \<exists>indicator \<in> set PROFILE_INDICATORS. str_in indicator title_lower then True
          else if \<exists>pattern \<in> set PROFILE_PATTERNS.
                    pattern title \<and> str_in ''chrome_widgetwin'' cls then True
          else False)"

section \<open>The profile set\<close>

text \<open>
  \<open>get_profile_windows\<close>: the callback keeps each accepted handle with its title and
  creation time, in enumeration order; \<open>list.sort(key=...)\<close> is stable, as \<open>sort_key\<close>
  is; the result drops the creation time.
\<close>

type_synonym profile_window = "hwnd \<times> string"

definition get_profile_windows :: "world \<Rightarrow> profile_window list" where
  "get_profile_windows w =
     (let windows =
            map (\<lambda>h. (h, get_window_title w h, get_process_creation_time w h))
              (filter (is_profile_window w) (top_level w))
      in map (\<lambda>(h, title, _). (h, title)) (sort_key (\<lambda>(_, _, creation_time). creation_time) windows))"

section \<open>Dispatching calls\<close>

text \<open>
  An action runs against the world and either returns a value or raises; the world it
  leaves behind is kept in both cases, since the calls made before an exception have
  taken effect.
\<close>

type_synonym 'a io = "world \<Rightarrow> (exn + 'a) \<times> world"

definition effect :: "os_call \<Rightarrow> world \<Rightarrow> world" where
  "effect c w =
     (case c of
        SetWindowPos h x y cx cy flags \<Rightarrow>
          w\<lparr>window_rect := (window_rect w)
               (h := \<lparr>rect_left = x, rect_top = y, rect_right = x + cx, rect_bottom = y + cy\<rparr>)\<rparr>
      | _ \<Rightarrow> w)"

definition dispatch :: "os_call \<Rightarrow> unit io" where
  "dispatch c w =
     (let w1 = w\<lparr>call_log := call_log w @ [c]\<rparr>
      in if faults w (call_log w) c then (Inl (Raised c), w1) else (Inr (), effect c w1))"

text \<open>\<open>time.sleep\<close> never raises; the wait is logged in milliseconds.\<close>

definition sleep :: "nat \<Rightarrow> unit io" where
  "sleep ms w = (Inr (), w\<lparr>call_log := call_log w @ [Sleep ms]\<rparr>)"

definition get_window_rect :: "hwnd \<Rightarrow> rect io" where
  "get_window_rect h w =
     (case dispatch (GetWindowRect h) w of
        (Inl e, w') \<Rightarrow> (Inl e, w')
      | (Inr _, w') \<Rightarrow> (Inr (window_rect w' h), w'))"

definition bind_io :: "'a io \<Rightarrow> ('a \<Rightarrow> 'b io) \<Rightarrow> 'b io" where
  "bind_io m k w = (case m w of (Inl e, w') \<Rightarrow> (Inl e, w') | (Inr a, w') \<Rightarrow> k a w')"

text \<open>Statements in sequence: the first exception ends the sequence.\<close>

fun seq_io :: "unit io list \<Rightarrow> unit io" where
  "seq_io [] w = (Inr (), w)"
| "seq_io (m # ms) w = (case m w of (Inl e, w') \<Rightarrow> (Inl e, w') | (Inr _, w') \<Rightarrow> seq_io ms w')"

text \<open>\<open>for x in xs: body(x)\<close>.\<close>

definition for_each :: "('a \<Rightarrow> unit io) \<Rightarrow> 'a list \<Rightarrow> unit io" where
  "for_each body xs = seq_io (map body xs)"

text \<open>
  \<open>try: body  except Exception as e: print(...)\<close>: the exception is swallowed, the
  world stays as the body left it. The printed line is not modelled.
\<close>

definition try_except :: "unit io \<Rightarrow> unit io" where
  "try_except body w = (case body w of (Inl e, w') \<Rightarrow> (Inr (), w') | (Inr u, w') \<Rightarrow> (Inr u, w'))"

section \<open>Settings and the grid\<close>

record settings =
  grid_cols :: int
  grid_rows :: int
  h_gap :: int
  v_gap :: int
  hotkey :: string
  zoom_level :: int
  window_width :: int
  window_height :: int

definition DEFAULT_SETTINGS :: settings where
  "DEFAULT_SETTINGS =
     \<lparr>grid_cols = 0, grid_rows = 0, h_gap = 10, v_gap = 10, hotkey = ''ctrl+shift+p'',
      zoom_level = 35, window_width = 550, window_height = 600\<rparr>"

record cell =
  cell_x :: int
  cell_y :: int
  cell_w :: int
  cell_h :: int

text \<open>
  The automatic grid of \<open>position_windows\<close>: a dimension set to 0 is computed from the
  work area. \<open>//\<close> is floor division, as \<open>div\<close> on \<open>int\<close>, and raises on a zero divisor.
\<close>

definition auto_grid :: "settings \<Rightarrow> int \<Rightarrow> int \<Rightarrow> exn + int \<times> int" where
  "auto_grid s work_w work_h =
     (let cols = grid_cols s; rows = grid_rows s;
          win_w = window_width s; win_h = window_height s
      in
        if cols = 0 \<and> win_w + h_gap s = 0 then Inl ZeroDivisionError
        else
          let cols = (if cols = 0 then max 1 (work_w div (win_w + h_gap s)) else cols) in
            if rows = 0 \<and> win_h + v_gap s = 0 then Inl ZeroDivisionError
            else
              let rows = (if rows = 0 then max 1 (work_h div (win_h + v_gap s)) else rows)
              in Inr (cols, rows))"

text \<open>
  \<open>while cols * rows < num_windows: cols += 1\<close>. The loop need not end; \<open>None\<close> is a run
  that never leaves it.
\<close>

partial_function (option) grow_cols :: "int \<Rightarrow> int \<Rightarrow> int \<Rightarrow> int option" where
  "grow_cols cols rows num_windows =
     (if cols * rows < num_windows then grow_cols (cols + 1) rows num_windows else Some cols)"

definition grid_dims :: "settings \<Rightarrow> int \<Rightarrow> int \<Rightarrow> int \<Rightarrow> (exn + int \<times> int) option" where
  "grid_dims s work_w work_h num_windows =
     (case auto_grid s work_w work_h of
        Inl e \<Rightarrow> Some (Inl e)
      | Inr (cols, rows) \<Rightarrow>
          (case grow_cols cols rows num_windows of
             None \<Rightarrow> None
           | Some cols' \<Rightarrow> Some (Inr (cols', rows))))"

text \<open>The cell of window \<open>i\<close>, for \<open>cols \<noteq> 0\<close> (\<open>%\<close> and \<open>//\<close> raise on \<open>cols = 0\<close>).\<close>

definition cell_at :: "settings \<Rightarrow> int \<Rightarrow> int \<Rightarrow> cell" where
  "cell_at s cols i =
     (let col = i mod cols;
          row = i div cols;
          x = col * (window_width s + h_gap s);
          y = row * (window_height s + v_gap s)
      in \<lparr>cell_x = x, cell_y = y, cell_w = window_width s, cell_h = window_height s\<rparr>)"

text \<open>
  The grid planner: the dimensions and the cells \<open>position_windows\<close> computes for
  \<open>num\<close> windows, in window order. The outer \<open>option\<close> is \<open>None\<close> when the growing loop
  never ends.
\<close>

definition plan_grid ::
  "settings \<Rightarrow> nat \<Rightarrow> int \<Rightarrow> int \<Rightarrow> (exn + int \<times> int \<times> cell list) option" where
  "plan_grid s num work_w work_h =
     (case grid_dims s work_w work_h (int num) of
        None \<Rightarrow> None
      | Some (Inl e) \<Rightarrow> Some (Inl e)
      | Some (Inr (cols, rows)) \<Rightarrow>
          if cols = 0 \<and> 0 < num then Some (Inl ZeroDivisionError)
          else Some (Inr (cols, rows, map (\<lambda>i. cell_at s cols (int i)) [0 ..< num])))"

definition overlap :: "cell \<Rightarrow> cell \<Rightarrow> bool" where
  "overlap a b =
     (cell_x a < cell_x b + cell_w b \<and> cell_x b < cell_x a + cell_w a \<and>
      cell_y a < cell_y b + cell_h b \<and> cell_y b < cell_y a + cell_h a)"

section \<open>The four actions\<close>

subsection \<open>Position\<close>

text \<open>The loop body of \<open>position_windows\<close>; it has no \<open>try\<close>.\<close>

definition position_window :: "settings \<Rightarrow> int \<Rightarrow> nat \<times> profile_window \<Rightarrow> unit io" where
  "position_window s cols = (\<lambda>(i, hwnd, title).
     if cols = 0 then (\<lambda>w. (Inl ZeroDivisionError, w))
     else
       let c = cell_at s cols (int i) in
         seq_io
           [dispatch (ShowWindow hwnd SW_RESTORE),
            sleep 30,
            dispatch (SetWindowPos hwnd (cell_x c) (cell_y c) (cell_w c) (cell_h c) SWP_NOZORDER)])"

text \<open>The parameter \<open>resize\<close> of the source is never read and is left out.\<close>

definition position_windows :: "settings \<Rightarrow> world \<Rightarrow> ((exn + nat) \<times> world) option" where
  "position_windows s w =
     (let windows = get_profile_windows w in
        if windows = [] then Some (Inr 0, w)
        else
          let (work_w, work_h) = get_work_area w;
              num_windows = length windows
          in
            case grid_dims s work_w work_h (int num_windows) of
              None \<Rightarrow> None
            | Some (Inl e) \<Rightarrow> Some (Inl e, w)
            | Some (Inr (cols, rows)) \<Rightarrow>
                (case for_each (position_window s cols) (enumerate 0 windows) w of
                   (Inl e, w') \<Rightarrow> Some (Inl e, w')
                 | (Inr _, w') \<Rightarrow> Some (Inr num_windows, w')))"

subsection \<open>Zoom\<close>

text \<open>The dictionary \<open>zoom_steps\<close>, in insertion order, which is its iteration order.\<close>

definition zoom_steps :: "(int \<times> nat) list" where
  "zoom_steps =
     [(100, 0), (90, 1), (80, 2), (75, 3), (67, 4), (50, 5), (33, 6), (25, 7), (35, 6)]"

text \<open>
  \<open>min(xs, key=f)\<close>: the first element of least key; \<open>None\<close> is the \<open>ValueError\<close> on an
  empty sequence.
\<close>

definition py_min_key :: "('a \<Rightarrow> int) \<Rightarrow> 'a list \<Rightarrow> 'a option" where
  "py_min_key f xs =
     (case xs of
        [] \<Rightarrow> None
      | x # rest \<Rightarrow> Some (foldl (\<lambda>best y. if f y < f best then y else best) x rest))"

definition zoom_steps_for :: "int \<Rightarrow> exn + nat" where
  "zoom_steps_for zoom_percent =
     (case py_min_key (\<lambda>x. \<bar>x - zoom_percent\<bar>) (map fst zoom_steps) of
        None \<Rightarrow> Inl ValueError
      | Some closest \<Rightarrow>
          (case map_of zoom_steps closest of
             None \<Rightarrow> Inl KeyError
           | Some steps \<Rightarrow> Inr steps))"

definition zoom_body :: "nat \<Rightarrow> profile_window \<Rightarrow> unit io" where
  "zoom_body steps = (\<lambda>(hwnd, title).
     seq_io
       ([dispatch (ShowWindow hwnd SW_RESTORE),
         dispatch (SetForegroundWindow hwnd),
         sleep 150,
         dispatch (KeyPress ''ctrl+0''),
         sleep 80]
        @ concat (replicate steps [dispatch (KeyPress ''ctrl+-''), sleep 80])))"

definition apply_zoom_to_all :: "int \<Rightarrow> world \<Rightarrow> (exn + nat) \<times> world" where
  "apply_zoom_to_all zoom_percent w =
     (let windows = get_profile_windows w in
        if windows = [] then (Inr 0, w)
        else
          case zoom_steps_for zoom_percent of
            Inl e \<Rightarrow> (Inl e, w)
          | Inr steps \<Rightarrow>
              (case for_each (\<lambda>win. try_except (zoom_body steps win)) windows w of
                 (Inl e, w') \<Rightarrow> (Inl e, w')
               | (Inr _, w') \<Rightarrow> (Inr (length windows), w')))"

subsection \<open>Resize\<close>

definition resize_body :: "int \<Rightarrow> int \<Rightarrow> profile_window \<Rightarrow> unit io" where
  "resize_body width height = (\<lambda>(hwnd, title).
     seq_io
       [dispatch (ShowWindow hwnd SW_RESTORE),
        sleep 50,
        bind_io (get_window_rect hwnd) (\<lambda>r.
          let x = rect_left r; y = rect_top r
          in dispatch (SetWindowPos hwnd x y width height SWP_NOZORDER))])"

definition resize_all_windows :: "int \<Rightarrow> int \<Rightarrow> world \<Rightarrow> (exn + nat) \<times> world" where
  "resize_all_windows width height w =
     (let windows = get_profile_windows w in
        if windows = [] then (Inr 0, w)
        else
          case for_each (\<lambda>win. try_except (resize_body width height win)) windows w of
            (Inl e, w') \<Rightarrow> (Inl e, w')
          | (Inr _, w') \<Rightarrow> (Inr (length windows), w'))"

subsection \<open>Navigate\<close>

definition navigate_body :: "string \<Rightarrow> profile_window \<Rightarrow> unit io" where
  "navigate_body url = (\<lambda>(hwnd, title).
     seq_io
       [dispatch (ShowWindow hwnd SW_RESTORE),
        dispatch (SetForegroundWindow hwnd),
        sleep 150,
        dispatch (KeyPress ''ctrl+t''),
        sleep 300,
        dispatch (KeyWrite url),
        sleep 150,
        dispatch (KeyPress ''enter''),
        sleep 200])"

definition with_scheme :: "string \<Rightarrow> string" where
  "with_scheme url =
     (if \<not> startswith url ''http://'' \<and> \<not> startswith url ''https://''
      then ''https://'' @ url else url)"

definition open_url_in_all :: "string \<Rightarrow> bool \<Rightarrow> int \<Rightarrow> world \<Rightarrow> (exn + nat) \<times> world" where
  "open_url_in_all url apply_zoom_after zoom_percent w =
     (let windows = get_profile_windows w in
        if windows = [] then (Inr 0, w)
        else if url = [] \<or> strip url = [] then (Inr 0, w)
        else
          let url' = with_scheme (strip url) in
            case for_each (\<lambda>win. try_except (navigate_body url' win)) windows w of
              (Inl e, w1) \<Rightarrow> (Inl e, w1)
            | (Inr _, w1) \<Rightarrow>
                if apply_zoom_after then
                  (case sleep 2000 w1 of
                     (Inl e, w2) \<Rightarrow> (Inl e, w2)
                   | (Inr _, w2) \<Rightarrow>
                       (case apply_zoom_to_all zoom_percent w2 of
                          (Inl e, w3) \<Rightarrow> (Inl e, w3)
                        | (Inr _, w3) \<Rightarrow> (Inr (length windows), w3)))
                else (Inr (length windows), w1))"

section \<open>What the specification counts\<close>


section \<open>Resize: what keeping the position means\<close>




section \<open>Observing a batch\<close>

text \<open>
  The windows an action has tried to restore, in order: the targets of the \<open>ShowWindow\<close>
  calls of a log. Every sub-sequence of every action starts with that call, so this is
  the list of the windows whose sub-sequence was started.
\<close>

fun show_target :: "os_call \<Rightarrow> hwnd list" where
  "show_target (ShowWindow h cmd) = [h]"
| "show_target c = []"

definition restored :: "os_call list \<Rightarrow> hwnd list" where
  "restored calls = concat (map show_target calls)"

section \<open>Position: the calls for one window\<close>


section \<open>Example desktops\<close>

text \<open>
  Three visible top-level windows: 101 is a browser window titled by a profile name of
  the pattern, 102 carries an inclusion keyword, 103 is the management application, whose
  title carries an inclusion keyword too. Window 102 belongs to the oldest process; the
  creation time of 103 cannot be read.
\<close>

definition demo_world :: world where
  "demo_world =
     \<lparr>top_level = [101, 102, 103],
      visible = (\<lambda>h. True),
      window_text = (\<lambda>h. if h = 101 then ''AB12 - Chromium''
                          else if h = 102 then ''Mimic 7'' else ''Multilogin X App - mimic''),
      class_name = (\<lambda>h. if h = 101 then ''Chrome_WidgetWin_1'' else ''Notepad''),
      creation_filetime = (\<lambda>h. if h = 101 then Some (5, 1)
                                else if h = 102 then Some (7, 0) else None),
      window_rect = (\<lambda>h. \<lparr>rect_left = 100, rect_top = 200, rect_right = 650, rect_bottom = 800\<rparr>),
      work_area_rect = \<lparr>rect_left = 0, rect_top = 0, rect_right = 1920, rect_bottom = 1040\<rparr>,
      screen_size = (1920, 1080),
      call_log = [],
      faults = (\<lambda>l c. False)\<rparr>"

text \<open>
  The \<open>ctypes\<close> binding. The functions of \<open>user32\<close> are called without \<open>argtypes\<close>: a
  Python \<open>int\<close> argument is converted to a C \<open>unsigned long\<close> or else a C \<open>long\<close>, and when
  it fits neither the call raises \<open>ctypes.ArgumentError\<close> and never reaches the window
  manager. \<open>bits\<close> is the width of C \<open>long\<close>, 32 on Windows. \<open>None\<close> and \<open>byref(rect)\<close>
  are always marshalled; the keyboard calls and \<open>sleep\<close> take no C argument.
\<close>

definition marshals :: "nat \<Rightarrow> int \<Rightarrow> bool" where
  "marshals bits v = (- (2 ^ (bits - 1)) \<le> v \<and> v < 2 ^ bits)"

fun int_args :: "os_call \<Rightarrow> int list" where
  "int_args (ShowWindow h cmd) = [int h, cmd]"
| "int_args (SetForegroundWindow h) = [int h]"
| "int_args (SetWindowPos h x y cx cy flags) = [int h, x, y, cx, cy, flags]"
| "int_args (GetWindowRect h) = [int h]"
| "int_args (KeyPress keys) = []"
| "int_args (KeyWrite text) = []"
| "int_args (Sleep ms) = []"

definition ctypes_raises :: "nat \<Rightarrow> os_call \<Rightarrow> bool" where
  "ctypes_raises bits c = (\<exists>v \<in> set (int_args c). \<not> marshals bits v)"

text \<open>
  The example desktop under the binding's rule on Windows: a call raises exactly when
  one of its \<open>int\<close> arguments cannot be marshalled. No window closes and the keyboard
  calls do not raise.
\<close>

definition ctypes_world :: world where
  "ctypes_world = demo_world\<lparr>faults := (\<lambda>l c. ctypes_raises 32 c)\<rparr>"

text \<open>
  A width that \<open>int()\<close> parses and the settings keep, and that no C \<open>long\<close> of 64 bits or
  fewer holds: \<open>2 ** 64\<close>.
\<close>

definition WIDE :: int where
  "WIDE = 18446744073709551616"

definition wide_settings :: settings where
  "wide_settings = DEFAULT_SETTINGS\<lparr>window_width := WIDE\<rparr>"

section \<open>Facts about the example desktop\<close>

lemma get_window_title_eq: "get_window_title w h = window_text w h"
  by (simp add: get_window_title_def)

lemma demo_fields:
  "visible demo_world h"
  "window_text demo_world 101 = ''AB12 - Chromium''"
  "window_text demo_world 102 = ''Mimic 7''"
  "window_text demo_world 103 = ''Multilogin X App - mimic''"
  "class_name demo_world 101 = ''Chrome_WidgetWin_1''"
  "top_level demo_world = [101, 102, 103]"
  "call_log demo_world = []"
  by (simp_all add: demo_world_def)

lemma title_facts:
  "\<not> (\<exists>e \<in> set EXCLUDE_INDICATORS. str_in e (lower ''AB12 - Chromium''))"
  "\<not> (\<exists>k \<in> set PROFILE_INDICATORS. str_in k (lower ''AB12 - Chromium''))"
  "re_search_profile ''AB12 - Chromium''"
  "str_in ''chrome_widgetwin'' (lower ''Chrome_WidgetWin_1'')"
  "\<not> str_in ''chrome_widgetwin'' (lower ''Notepad'')"
  "\<not> (\<exists>e \<in> set EXCLUDE_INDICATORS. str_in e (lower ''Mimic 7''))"
  "\<exists>k \<in> set PROFILE_INDICATORS. str_in k (lower ''Mimic 7'')"
  "\<exists>e \<in> set EXCLUDE_INDICATORS. str_in e (lower ''Multilogin X App - mimic'')"
  "\<exists>k \<in> set PROFILE_INDICATORS. str_in k (lower ''Multilogin X App - mimic'')"
  by code_simp+

lemma demo_accepted:
  "is_profile_window demo_world 101"
  "is_profile_window demo_world 102"
  "\<not> is_profile_window demo_world 103"
  using title_facts
  by (simp_all add: is_profile_window_def get_window_title_eq get_window_class_def
      PROFILE_PATTERNS_def demo_fields Let_def)

lemma demo_times:
  "get_process_creation_time demo_world 101 = 4294967301"
  "get_process_creation_time demo_world 102 = 7"
  by (simp_all add: get_process_creation_time_def demo_world_def)

lemma demo_profile_windows:
  "get_profile_windows demo_world = [(102, ''Mimic 7''), (101, ''AB12 - Chromium'')]"
  by (simp add: get_profile_windows_def demo_fields demo_accepted demo_times
      get_window_title_eq)

section \<open>Properties of the classifier\<close>

text \<open>
  C5. A visible window with a non-empty title that contains no exclusion string and no
  inclusion keyword, and in which the pattern of two upper-case letters and digits is
  found as a whole word, is accepted exactly when its lower-cased class name contains
  \<open>chrome_widgetwin\<close>.
\<close>

theorem is_profile_window_pattern:
  assumes "visible w h"
      and "window_text w h \<noteq> []"
      and "\<not> (\<exists>e \<in> set EXCLUDE_INDICATORS. str_in e (lower (window_text w h)))"
      and "\<not> (\<exists>k \<in> set PROFILE_INDICATORS. str_in k (lower (window_text w h)))"
      and "re_search_profile (window_text w h)"
  shows "is_profile_window w h = str_in ''chrome_widgetwin'' (lower (class_name w h))"
  using assms
  by (simp add: is_profile_window_def get_window_title_eq get_window_class_def
      PROFILE_PATTERNS_def Let_def)

theorem is_profile_window_pattern_witness:
  "is_profile_window demo_world 101 \<and>
   \<not> is_profile_window (demo_world\<lparr>class_name := (\<lambda>h. ''Notepad'')\<rparr>) 101"
  using is_profile_window_pattern [of demo_world 101]
    is_profile_window_pattern [of "demo_world\<lparr>class_name := (\<lambda>h. ''Notepad'')\<rparr>" 101]
    title_facts
  by (simp add: demo_fields)

text \<open>
  C6. A window whose lower-cased title contains a string of the exclusion list is
  rejected, whatever else the title contains: the exclusion list is consulted before the
  inclusion keywords.
\<close>

theorem exclusion_rejects:
  assumes "\<exists>e \<in> set EXCLUDE_INDICATORS. str_in e (lower (window_text w h))"
  shows "\<not> is_profile_window w h"
  using assms by (simp add: is_profile_window_def get_window_title_eq Let_def)

theorem exclusion_rejects_witness:
  "(\<exists>k \<in> set PROFILE_INDICATORS. str_in k (lower (window_text demo_world 103))) \<and>
   \<not> is_profile_window demo_world 103"
  using exclusion_rejects [of demo_world 103] title_facts
  by (simp add: demo_fields)

section \<open>Properties of the profile set\<close>

lemma profile_triples:
  assumes "e \<in> set (sort_key (\<lambda>(_, _, creation_time). creation_time)
              (map (\<lambda>h. (h, get_window_title w h, get_process_creation_time w h)) hs))"
  shows "(case e of (_, _, c) \<Rightarrow> c) = get_process_creation_time w (fst e) \<and>
         fst (snd e) = get_window_title w (fst e)"
  using assms by auto

text \<open>
  C9. The profile set holds exactly the enumerated windows the classifier accepts, each
  once per enumeration, with its title; it is in ascending order of the creation time
  read for the window, and windows of equal creation time keep their enumeration order.
\<close>

theorem profile_set_sorted:
  "mset (map fst (get_profile_windows w)) = mset (filter (is_profile_window w) (top_level w)) \<and>
   sorted (map (\<lambda>p. get_process_creation_time w (fst p)) (get_profile_windows w)) \<and>
   (\<forall>p \<in> set (get_profile_windows w). snd p = get_window_title w (fst p)) \<and>
   (\<forall>k. filter (\<lambda>h. get_process_creation_time w h = k) (map fst (get_profile_windows w)) =
        filter (\<lambda>h. get_process_creation_time w h = k)
          (filter (is_profile_window w) (top_level w)))"
proof -
  define hs where "hs = filter (is_profile_window w) (top_level w)"
  define key :: "hwnd \<times> string \<times> int \<Rightarrow> int"
    where "key = (\<lambda>(_, _, creation_time). creation_time)"
  define xs where "xs = map (\<lambda>h. (h, get_window_title w h, get_process_creation_time w h)) hs"
  define ys where "ys = sort_key key xs"
  have res: "get_profile_windows w = map (\<lambda>(h, title, _). (h, title)) ys"
    by (simp add: get_profile_windows_def ys_def xs_def hs_def key_def)
  have el: "key e = get_process_creation_time w (fst e) \<and> fst (snd e) = get_window_title w (fst e)"
    if "e \<in> set ys" for e
    using that profile_triples [of e w hs] by (simp add: ys_def xs_def key_def)
  have fst_res: "map fst (get_profile_windows w) = map fst ys"
    by (simp add: res case_prod_beta comp_def)
  have "mset (map fst ys) = mset (map fst xs)"
    by (simp add: ys_def)
  also have "map fst xs = hs"
    by (simp add: xs_def comp_def)
  finally have c1: "mset (map fst (get_profile_windows w)) = mset hs"
    by (simp add: fst_res)
  have "map (\<lambda>p. get_process_creation_time w (fst p)) (get_profile_windows w) = map key ys"
    using el by (simp add: res case_prod_beta comp_def)
  moreover have "sorted (map key ys)"
    by (simp add: ys_def)
  ultimately have c2:
    "sorted (map (\<lambda>p. get_process_creation_time w (fst p)) (get_profile_windows w))"
    by simp
  have c3: "\<forall>p \<in> set (get_profile_windows w). snd p = get_window_title w (fst p)"
    using el by (auto simp: res)
  have c4: "filter (\<lambda>h. get_process_creation_time w h = k) (map fst (get_profile_windows w)) =
        filter (\<lambda>h. get_process_creation_time w h = k) hs" for k
  proof -
    have "filter (\<lambda>h. get_process_creation_time w h = k) (map fst ys)
        = map fst (filter (\<lambda>e. get_process_creation_time w (fst e) = k) ys)"
      by (simp add: filter_map comp_def)
    also have "filter (\<lambda>e. get_process_creation_time w (fst e) = k) ys =
        filter (\<lambda>e. key e = k) ys"
      using el by (intro filter_cong) auto
    also have "\<dots> = filter (\<lambda>e. key e = k) xs"
      unfolding ys_def by (rule sort_key_stable)
    also have "map fst \<dots> = filter (\<lambda>h. get_process_creation_time w h = k) hs"
      by (simp add: xs_def filter_map comp_def key_def)
    finally show ?thesis by (simp add: fst_res)
  qed
  show ?thesis using c1 c2 c3 c4 by (simp add: hs_def)
qed

theorem profile_set_sorted_witness:
  "get_profile_windows demo_world = [(102, ''Mimic 7''), (101, ''AB12 - Chromium'')] \<and>
   mset (map fst (get_profile_windows demo_world)) = {#101, 102#} \<and>
   sorted (map (\<lambda>p. get_process_creation_time demo_world (fst p))
     (get_profile_windows demo_world))"
  using profile_set_sorted [of demo_world] demo_profile_windows
  by (simp add: demo_fields demo_accepted)

section \<open>Properties of the zoom table\<close>

lemma foldl_min_key:
  "foldl (\<lambda>best y. if f y < f best then y else best) x xs \<in> set (x # xs) \<and>
   (\<forall>y \<in> set (x # xs).
      (f :: 'a \<Rightarrow> int) (foldl (\<lambda>best y. if f y < f best then y else best) x xs) \<le> f y)"
proof (induction xs arbitrary: x)
  case Nil
  show ?case by simp
next
  case (Cons a xs)
  show ?case
  proof (cases "f a < f x")
    case True
    with Cons [of a] show ?thesis by fastforce
  next
    case False
    with Cons [of x] show ?thesis by fastforce
  qed
qed

lemma py_min_key_least:
  assumes "py_min_key f xs = Some m"
  shows "m \<in> set xs \<and> (\<forall>y \<in> set xs. f m \<le> f y)"
proof (cases xs)
  case Nil
  with assms show ?thesis by (simp add: py_min_key_def)
next
  case (Cons x rest)
  with assms foldl_min_key [of f x rest] show ?thesis
    by (simp add: py_min_key_def)
qed

lemma py_min_key_nonempty:
  assumes "xs \<noteq> []"
  shows "\<exists>m. py_min_key f xs = Some m"
  using assms by (cases xs) (simp_all add: py_min_key_def)

lemma zoom_steps_for_nearest:
  "\<exists>k steps. zoom_steps_for p = Inr steps \<and> (k, steps) \<in> set zoom_steps \<and>
     (\<forall>k' \<in> fst ` set zoom_steps. \<bar>k - p\<bar> \<le> \<bar>k' - p\<bar>)"
proof -
  have "map fst zoom_steps \<noteq> []"
    by (simp add: zoom_steps_def)
  then have "\<exists>m. py_min_key (\<lambda>x. \<bar>x - p\<bar>) (map fst zoom_steps) = Some m"
    by (rule py_min_key_nonempty)
  then obtain m where m: "py_min_key (\<lambda>x. \<bar>x - p\<bar>) (map fst zoom_steps) = Some m" ..
  note lst = py_min_key_least [OF m, unfolded set_map]
  from lst have mem: "m \<in> fst ` set zoom_steps"
    by (rule conjunct1)
  from lst have least: "\<forall>y \<in> fst ` set zoom_steps. \<bar>m - p\<bar> \<le> \<bar>y - p\<bar>"
    by (rule conjunct2)
  from mem have "map_of zoom_steps m \<noteq> None"
    by (simp only: map_of_eq_None_iff not_not)
  then obtain steps where st: "map_of zoom_steps m = Some steps"
    by (cases "map_of zoom_steps m") simp_all
  then have in_tab: "(m, steps) \<in> set zoom_steps"
    by (rule map_of_SomeD)
  have "zoom_steps_for p = Inr steps"
    by (simp only: zoom_steps_for_def m st option.case)
  with in_tab least show ?thesis
    by (intro exI [of _ m] exI [of _ steps] conjI)
qed

lemma zoom_steps_for_total: "\<exists>steps. zoom_steps_for p = Inr steps"
proof -
  from zoom_steps_for_nearest [of p] obtain k steps where "zoom_steps_for p = Inr steps"
    by (elim exE conjE)
  then show ?thesis ..
qed

text \<open>
  C7. The step count is a function of the requested percentage alone, and it is the step
  count of a table entry whose percentage is nearest to the request by absolute
  difference: 35 gives 6 steps, and 60 gives the 4 steps of the entry 67.
\<close>

theorem zoom_mapping:
  "zoom_steps_for 35 = Inr 6 \<and> zoom_steps_for 60 = Inr 4 \<and> map_of zoom_steps 67 = Some 4 \<and>
   (\<forall>p. \<exists>k steps. zoom_steps_for p = Inr steps \<and> (k, steps) \<in> set zoom_steps \<and>
          (\<forall>k' \<in> fst ` set zoom_steps. \<bar>k - p\<bar> \<le> \<bar>k' - p\<bar>))"
proof (intro conjI allI)
  show "zoom_steps_for 35 = Inr 6"
    by (simp add: zoom_steps_for_def py_min_key_def zoom_steps_def)
  show "zoom_steps_for 60 = Inr 4"
    by (simp add: zoom_steps_for_def py_min_key_def zoom_steps_def)
  show "map_of zoom_steps 67 = Some 4"
    by (simp add: zoom_steps_def)
  show "\<exists>k steps. zoom_steps_for p = Inr steps \<and> (k, steps) \<in> set zoom_steps \<and>
          (\<forall>k' \<in> fst ` set zoom_steps. \<bar>k - p\<bar> \<le> \<bar>k' - p\<bar>)" for p
    by (rule zoom_steps_for_nearest)
qed

theorem zoom_mapping_witness:
  "zoom_steps_for 35 = Inr 6 \<and> zoom_steps_for 60 = Inr 4 \<and>
   (\<exists>k. (k, 4) \<in> set zoom_steps \<and> \<bar>k - 60\<bar> \<le> \<bar>50 - 60\<bar>)"
proof -
  note zm = zoom_mapping
  from zm have s35: "zoom_steps_for 35 = Inr 6" and s60: "zoom_steps_for 60 = Inr 4"
    by (rule conjunct1, rule conjunct2 [THEN conjunct1])
  from zm have "\<forall>p. \<exists>k steps. zoom_steps_for p = Inr steps \<and> (k, steps) \<in> set zoom_steps \<and>
          (\<forall>k' \<in> fst ` set zoom_steps. \<bar>k - p\<bar> \<le> \<bar>k' - p\<bar>)"
    by (rule conjunct2 [THEN conjunct2, THEN conjunct2])
  then obtain k steps where st: "zoom_steps_for 60 = Inr steps"
    and mem: "(k, steps) \<in> set zoom_steps"
    and least: "\<forall>k' \<in> fst ` set zoom_steps. \<bar>k - 60\<bar> \<le> \<bar>k' - 60\<bar>"
    by (elim allE [of _ 60] exE conjE)
  from st s60 have "steps = 4" by simp
  moreover have "(50, 5) \<in> set zoom_steps"
    by (simp add: zoom_steps_def)
  then have "50 \<in> fst ` set zoom_steps"
    by (rule image_eqI [rotated]) simp
  with least have "\<bar>k - 60\<bar> \<le> \<bar>50 - 60\<bar>"
    by (rule bspec)
  ultimately have "\<exists>k. (k, 4) \<in> set zoom_steps \<and> \<bar>k - 60\<bar> \<le> \<bar>50 - 60\<bar>"
    using mem by (intro exI [of _ k]) simp
  with s35 s60 show ?thesis by (intro conjI)
qed

section \<open>The grid of the end-to-end scenario\<close>

text \<open>
  C4. Five windows, automatic grid, target size 550 by 600, gaps of 10, work area 1920 by
  1040: the automatic grid is 3 by 1, the loop grows the columns to 5 and leaves one row,
  and the five cells stand side by side at x = 0, 560, 1120, 1680, 2240, y = 0.
\<close>

theorem plan_grid_scenario:
  "auto_grid DEFAULT_SETTINGS 1920 1040 = Inr (3, 1) \<and>
   grow_cols 3 1 5 = Some 5 \<and>
   plan_grid DEFAULT_SETTINGS 5 1920 1040 =
     Some (Inr (5, 1,
       [\<lparr>cell_x = 0, cell_y = 0, cell_w = 550, cell_h = 600\<rparr>,
        \<lparr>cell_x = 560, cell_y = 0, cell_w = 550, cell_h = 600\<rparr>,
        \<lparr>cell_x = 1120, cell_y = 0, cell_w = 550, cell_h = 600\<rparr>,
        \<lparr>cell_x = 1680, cell_y = 0, cell_w = 550, cell_h = 600\<rparr>,
        \<lparr>cell_x = 2240, cell_y = 0, cell_w = 550, cell_h = 600\<rparr>]))"
proof -
  have a: "auto_grid DEFAULT_SETTINGS 1920 1040 = Inr (3, 1)"
    by (simp add: auto_grid_def DEFAULT_SETTINGS_def)
  have g: "grow_cols 3 1 5 = Some 5"
    by (simp add: grow_cols.simps)
  have u: "[0 ..< 5] = [0, 1, 2, 3, 4]"
    by (simp add: upt_rec)
  show ?thesis
    by (simp add: a g u plan_grid_def grid_dims_def cell_at_def) (simp add: DEFAULT_SETTINGS_def)
qed

section \<open>Navigate with a blank URL\<close>

lemma strip_blank:
  assumes "\<forall>c \<in> set url. is_space c"
  shows "strip url = []"
  using assms by (auto simp: strip_def dest: set_dropWhileD)

text \<open>
  C10. When the URL is empty or made of whitespace only, the navigate action returns 0
  and leaves the desktop as it found it: nothing is restored, brought to the foreground
  or typed, also when the profile set is not empty.
\<close>

theorem navigate_blank_url:
  assumes "\<forall>c \<in> set url. is_space c"
  shows "open_url_in_all url apply_zoom_after zoom_percent w = (Inr 0, w)"
  using strip_blank [OF assms] by (simp add: open_url_in_all_def Let_def)

theorem navigate_blank_url_witness:
  "get_profile_windows demo_world \<noteq> [] \<and>
   open_url_in_all [] True 50 demo_world = (Inr 0, demo_world) \<and>
   open_url_in_all [CHR '' '', CHR 0x09, CHR '' ''] True 50 demo_world = (Inr 0, demo_world)"
proof -
  have "\<forall>c \<in> set [CHR '' '', CHR 0x09, CHR '' '']. is_space c"
    by (simp add: is_space_def in_range_def code_point_def)
  then show ?thesis
    using navigate_blank_url [of "[]" True 50 demo_world]
      navigate_blank_url [of "[CHR '' '', CHR 0x09, CHR '' '']" True 50 demo_world]
    by (simp add: demo_profile_windows)
qed

section \<open>The grid planner in general\<close>

lemma grow_cols_terminates:
  assumes "1 \<le> rows"
  shows "\<exists>c. grow_cols cols rows n = Some c"
proof (induction "nat (n - cols * rows)" arbitrary: cols rule: less_induct)
  case less
  show ?case
  proof (cases "cols * rows < n")
    case True
    have "nat (n - (cols + 1) * rows) < nat (n - cols * rows)"
      using True assms by (simp add: algebra_simps)
    from less [OF this] obtain c where "grow_cols (cols + 1) rows n = Some c" ..
    then show ?thesis
      using True by (subst grow_cols.simps) simp
  next
    case False
    then show ?thesis
      by (subst grow_cols.simps) simp
  qed
qed

lemma grow_cols_enough:
  assumes "grow_cols cols rows n = Some c"
  shows "n \<le> c * rows"
proof (rule grow_cols.raw_induct [where P = "\<lambda>cols rows n c. n \<le> c * rows", OF _ assms])
  fix f :: "int \<Rightarrow> int \<Rightarrow> int \<Rightarrow> int option" and cols rows n c :: int
  assume IH: "\<And>cols rows n c. f cols rows n = Some c \<Longrightarrow> n \<le> c * rows"
    and st: "(if cols * rows < n then f (cols + 1) rows n else Some cols) = Some c"
  show "n \<le> c * rows"
  proof (cases "cols * rows < n")
    case True
    with st have "f (cols + 1) rows n = Some c" by simp
    then show ?thesis by (rule IH)
  next
    case False
    with st show ?thesis by simp
  qed
qed

lemma grow_cols_negative_rows:
  assumes "grow_cols cols rows n = Some c"
  shows "\<not> (0 \<le> cols \<and> rows < 0 \<and> 0 < n)"
proof (rule grow_cols.raw_induct
    [where P = "\<lambda>cols rows n c. \<not> (0 \<le> cols \<and> rows < 0 \<and> 0 < n)", OF _ assms])
  fix f :: "int \<Rightarrow> int \<Rightarrow> int \<Rightarrow> int option" and cols rows n c :: int
  assume IH: "\<And>cols rows n c. f cols rows n = Some c \<Longrightarrow> \<not> (0 \<le> cols \<and> rows < 0 \<and> 0 < n)"
    and st: "(if cols * rows < n then f (cols + 1) rows n else Some cols) = Some c"
  show "\<not> (0 \<le> cols \<and> rows < 0 \<and> 0 < n)"
  proof
    assume inv: "0 \<le> cols \<and> rows < 0 \<and> 0 < n"
    then have "cols * rows \<le> 0"
      by (simp add: mult_nonneg_nonpos)
    with inv have "cols * rows < n" by simp
    with st have "f (cols + 1) rows n = Some c" by simp
    from IH [OF this] inv show False by simp
  qed
qed

lemma grow_cols_diverges:
  assumes "0 \<le> cols" "rows < 0" "0 < n"
  shows "grow_cols cols rows n = None"
proof (cases "grow_cols cols rows n")
  case None
  then show ?thesis .
next
  case (Some c)
  from grow_cols_negative_rows [OF Some] assms show ?thesis by simp
qed

lemma step_apart:
  fixes a b g W :: int
  assumes "a < b" "0 \<le> g" "0 < W"
  shows "a * (W + g) + W \<le> b * (W + g)"
proof -
  from assms have "a + 1 \<le> b" by simp
  then have "(a + 1) * (W + g) \<le> b * (W + g)"
    using assms by (intro mult_right_mono) simp_all
  moreover have "(a + 1) * (W + g) = a * (W + g) + W + g"
    by (simp add: algebra_simps)
  ultimately show ?thesis using assms by simp
qed

lemma cells_apart:
  fixes i j cols :: int
  assumes "cols \<noteq> 0" "i \<noteq> j"
    and "0 \<le> h_gap s" "0 \<le> v_gap s" "0 < window_width s" "0 < window_height s"
  shows "\<not> overlap (cell_at s cols i) (cell_at s cols j)"
proof -
  have "i mod cols \<noteq> j mod cols \<or> i div cols \<noteq> j div cols"
  proof (rule ccontr)
    assume "\<not> ?thesis"
    then have "i mod cols = j mod cols" "i div cols = j div cols" by simp_all
    then have "i = j"
      by (metis div_mult_mod_eq)
    with assms show False by simp
  qed
  then consider "i mod cols < j mod cols" | "j mod cols < i mod cols"
    | "i div cols < j div cols" | "j div cols < i div cols"
    by linarith
  then show ?thesis
  proof cases
    case 1
    from step_apart [OF 1 assms(3) assms(5)] show ?thesis
      by (simp add: overlap_def cell_at_def Let_def)
  next
    case 2
    from step_apart [OF 2 assms(3) assms(5)] show ?thesis
      by (simp add: overlap_def cell_at_def Let_def)
  next
    case 3
    from step_apart [OF 3 assms(4) assms(6)] show ?thesis
      by (simp add: overlap_def cell_at_def Let_def)
  next
    case 4
    from step_apart [OF 4 assms(4) assms(6)] show ?thesis
      by (simp add: overlap_def cell_at_def Let_def)
  qed
qed


lemma auto_grid_ok:
  assumes "0 \<le> h_gap s" "0 \<le> v_gap s" "0 < window_width s" "0 < window_height s"
  shows "\<exists>cols rows. auto_grid s work_w work_h = Inr (cols, rows) \<and>
           (0 \<le> grid_rows s \<longrightarrow> 1 \<le> rows)"
  using assms by (simp add: auto_grid_def Let_def)

lemma plan_grid_Some:
  assumes ag: "auto_grid s work_w work_h = Inr (cols0, rows)"
    and gc: "grow_cols cols0 rows (int num) = Some cols"
    and nz: "cols \<noteq> 0"
  shows "plan_grid s num work_w work_h =
           Some (Inr (cols, rows, map (\<lambda>i. cell_at s cols (int i)) [0 ..< num]))"
  using assms by (simp add: plan_grid_def grid_dims_def)

lemma plan_grid_None:
  assumes ag: "auto_grid s work_w work_h = Inr (cols0, rows)"
    and gc: "grow_cols cols0 rows (int num) = None"
  shows "plan_grid s num work_w work_h = None"
  using assms by (simp add: plan_grid_def grid_dims_def)

text \<open>
  C3, as the code has it. For at least one window, gaps that are not negative and a
  positive target size: when the configured number of rows is not negative (0 standing
  for the automatic value) the planner returns, whatever the configured columns are;
  and whenever it returns, it returns no error but exactly one cell per window, each
  of the target width and height, no two of them overlapping, and a grid of at least
  as many places as windows.
\<close>

theorem plan_grid_cells:
  assumes num: "1 \<le> num"
    and gaps: "0 \<le> h_gap s" "0 \<le> v_gap s"
    and size: "0 < window_width s" "0 < window_height s"
  shows "(0 \<le> grid_rows s \<longrightarrow> plan_grid s num work_w work_h \<noteq> None) \<and>
         (\<forall>r. plan_grid s num work_w work_h = Some r \<longrightarrow>
            (\<exists>cols rows cells. r = Inr (cols, rows, cells) \<and> length cells = num \<and>
               (\<forall>c \<in> set cells. cell_w c = window_width s \<and> cell_h c = window_height s) \<and>
               (\<forall>i < num. \<forall>j < num. i \<noteq> j \<longrightarrow> \<not> overlap (cells ! i) (cells ! j)) \<and>
               int num \<le> cols * rows))"
proof -
  from auto_grid_ok [OF gaps size] obtain cols0 rows
    where ag: "auto_grid s work_w work_h = Inr (cols0, rows)"
      and rows: "0 \<le> grid_rows s \<longrightarrow> 1 \<le> rows"
    by blast
  have enough: "cols \<noteq> 0 \<and> int num \<le> cols * rows"
    if "grow_cols cols0 rows (int num) = Some cols" for cols
  proof -
    from grow_cols_enough [OF that] have le: "int num \<le> cols * rows" .
    with num have "cols \<noteq> 0" by auto
    with le show ?thesis by simp
  qed
  have part1: "plan_grid s num work_w work_h \<noteq> None" if "0 \<le> grid_rows s"
  proof -
    from that rows have "1 \<le> rows" by simp
    from grow_cols_terminates [OF this] obtain cols
      where gc: "grow_cols cols0 rows (int num) = Some cols" ..
    from enough [OF gc] have "cols \<noteq> 0" by simp
    from plan_grid_Some [OF ag gc this] show ?thesis by simp
  qed
  have part2: "\<exists>cols rows cells. r = Inr (cols, rows, cells) \<and> length cells = num \<and>
               (\<forall>c \<in> set cells. cell_w c = window_width s \<and> cell_h c = window_height s) \<and>
               (\<forall>i < num. \<forall>j < num. i \<noteq> j \<longrightarrow> \<not> overlap (cells ! i) (cells ! j)) \<and>
               int num \<le> cols * rows"
    if some: "plan_grid s num work_w work_h = Some r" for r
  proof (cases "grow_cols cols0 rows (int num)")
    case None
    from plan_grid_None [OF ag None] some show ?thesis by simp
  next
    case (Some cols)
    from enough [OF Some] have nz: "cols \<noteq> 0" and le: "int num \<le> cols * rows" by simp_all
    define cells where "cells = map (\<lambda>i. cell_at s cols (int i)) [0 ..< num]"
    from plan_grid_Some [OF ag Some nz] some have r: "r = Inr (cols, rows, cells)"
      by (simp add: cells_def)
    have len: "length cells = num"
      by (simp add: cells_def)
    have dims: "\<forall>c \<in> set cells. cell_w c = window_width s \<and> cell_h c = window_height s"
      by (auto simp: cells_def cell_at_def Let_def)
    have apart: "\<forall>i < num. \<forall>j < num. i \<noteq> j \<longrightarrow> \<not> overlap (cells ! i) (cells ! j)"
    proof (intro allI impI)
      fix i j
      assume "i < num" "j < num" "i \<noteq> j"
      then have "cells ! i = cell_at s cols (int i)" "cells ! j = cell_at s cols (int j)"
        "int i \<noteq> int j"
        by (simp_all add: cells_def)
      with cells_apart [OF nz _ gaps size, of "int i" "int j"]
      show "\<not> overlap (cells ! i) (cells ! j)" by simp
    qed
    from r len dims apart le show ?thesis by blast
  qed
  from part1 part2 show ?thesis by blast
qed

lemma default_grid_assumptions:
  "0 \<le> h_gap DEFAULT_SETTINGS" "0 \<le> v_gap DEFAULT_SETTINGS"
  "0 < window_width DEFAULT_SETTINGS" "0 < window_height DEFAULT_SETTINGS"
  "0 \<le> grid_rows DEFAULT_SETTINGS"
  by (simp_all add: DEFAULT_SETTINGS_def)

theorem plan_grid_cells_witness:
  "plan_grid DEFAULT_SETTINGS 5 1920 1040 \<noteq> None \<and>
   (\<exists>cols rows cells. plan_grid DEFAULT_SETTINGS 5 1920 1040 = Some (Inr (cols, rows, cells)) \<and>
      length cells = 5 \<and> \<not> overlap (cells ! 0) (cells ! 1) \<and> 5 \<le> cols * rows)"
proof -
  have "(1::nat) \<le> 5" by simp
  note th = plan_grid_cells [OF this default_grid_assumptions(1-4), of 1920 1040]
  from th default_grid_assumptions(5) have ne: "plan_grid DEFAULT_SETTINGS 5 1920 1040 \<noteq> None"
    by (elim conjE impE)
  then obtain r where r: "plan_grid DEFAULT_SETTINGS 5 1920 1040 = Some r"
    by (cases "plan_grid DEFAULT_SETTINGS 5 1920 1040") simp_all
  with th obtain cols rows cells where "r = Inr (cols, rows, cells)" "length cells = 5"
    "\<forall>i < 5. \<forall>j < 5. i \<noteq> j \<longrightarrow> \<not> overlap (cells ! i) (cells ! j)" "int 5 \<le> cols * rows"
    by blast
  then have "plan_grid DEFAULT_SETTINGS 5 1920 1040 = Some (Inr (cols, rows, cells)) \<and>
      length cells = 5 \<and> \<not> overlap (cells ! 0) (cells ! 1) \<and> 5 \<le> cols * rows"
    using r by simp
  then have "\<exists>cols rows cells.
      plan_grid DEFAULT_SETTINGS 5 1920 1040 = Some (Inr (cols, rows, cells)) \<and>
      length cells = 5 \<and> \<not> overlap (cells ! 0) (cells ! 1) \<and> 5 \<le> cols * rows"
    by (intro exI)
  with ne show ?thesis by (rule conjI)
qed

text \<open>
  C3 as stated, for any starting grid, fails on the code: with a negative number of rows
  configured, the product of columns and rows only falls
  as the columns grow: the loop never ends and no cell is produced.
\<close>

theorem plan_grid_negative_rows:
  "(1::nat) \<le> 1 \<and>
   0 \<le> h_gap (DEFAULT_SETTINGS\<lparr>grid_rows := - 1\<rparr>) \<and>
   0 \<le> v_gap (DEFAULT_SETTINGS\<lparr>grid_rows := - 1\<rparr>) \<and>
   0 < window_width (DEFAULT_SETTINGS\<lparr>grid_rows := - 1\<rparr>) \<and>
   0 < window_height (DEFAULT_SETTINGS\<lparr>grid_rows := - 1\<rparr>) \<and>
   plan_grid (DEFAULT_SETTINGS\<lparr>grid_rows := - 1\<rparr>) 1 1920 1040 = None"
proof -
  have ag: "auto_grid (DEFAULT_SETTINGS\<lparr>grid_rows := - 1\<rparr>) 1920 1040 = Inr (3, - 1)"
    by (simp add: auto_grid_def DEFAULT_SETTINGS_def)
  have "grow_cols 3 (- 1) (int 1) = None"
    by (rule grow_cols_diverges) simp_all
  from plan_grid_None [OF ag this] show ?thesis
    by (simp add: DEFAULT_SETTINGS_def)
qed

section \<open>The resize action\<close>

lemma try_except_fst: "fst (try_except m w) = Inr ()"
  by (auto simp: try_except_def split: prod.splits sum.splits)

lemma try_except_snd: "snd (try_except m w) = snd (m w)"
  by (auto simp: try_except_def split: prod.splits sum.splits)

lemma for_each_Nil: "for_each body [] w = (Inr (), w)"
  by (simp add: for_each_def)

lemma for_each_Cons:
  "for_each body (x # xs) w =
     (case body x w of (Inl e, w') \<Rightarrow> (Inl e, w') | (Inr u, w') \<Rightarrow> for_each body xs w')"
  unfolding for_each_def by simp

lemma for_each_try:
  "for_each (\<lambda>x. try_except (body x)) (x # xs) w =
     for_each (\<lambda>x. try_except (body x)) xs (snd (body x w))"
proof -
  obtain r w' where r: "try_except (body x) w = (r, w')" by (cases "try_except (body x) w")
  with try_except_fst [of "body x" w] try_except_snd [of "body x" w]
  have "r = Inr ()" "w' = snd (body x w)" by simp_all
  with r show ?thesis by (simp add: for_each_Cons)
qed

lemma for_each_try_fst: "fst (for_each (\<lambda>x. try_except (body x)) xs w) = Inr ()"
  by (induction xs arbitrary: w) (simp_all add: for_each_Nil for_each_try)











lemma resize_all_snd:
  "snd (resize_all_windows width height w) =
     snd (for_each (\<lambda>win. try_except (resize_body width height win)) (get_profile_windows w) w)"
  by (simp add: resize_all_windows_def Let_def for_each_Nil split: prod.splits sum.splits)




section \<open>Failures inside a batch\<close>

lemma get_profile_windows_cong:
  assumes "top_level w' = top_level w" "visible w' = visible w"
    and "window_text w' = window_text w" "class_name w' = class_name w"
    and "creation_filetime w' = creation_filetime w"
  shows "get_profile_windows w' = get_profile_windows w"
proof -
  have t: "get_window_title w' = get_window_title w"
    by (rule ext) (simp add: get_window_title_def assms)
  have c: "get_process_creation_time w' = get_process_creation_time w"
    by (rule ext) (simp add: get_process_creation_time_def assms)
  have p: "is_profile_window w' = is_profile_window w"
    by (rule ext) (simp add: is_profile_window_def t get_window_class_def assms)
  show ?thesis
    by (simp add: get_profile_windows_def t c p assms)
qed

lemma get_profile_windows_faults:
  "get_profile_windows (w\<lparr>faults := f\<rparr>) = get_profile_windows w"
  by (rule get_profile_windows_cong) simp_all

lemma ctypes_profile_windows:
  "get_profile_windows ctypes_world = [(102, ''Mimic 7''), (101, ''AB12 - Chromium'')]"
  by (simp add: ctypes_world_def get_profile_windows_faults demo_profile_windows)


lemma resize_returns:
  "fst (resize_all_windows width height w) = Inr (length (get_profile_windows w))"
  using for_each_try_fst [of "resize_body width height" "get_profile_windows w" w]
  by (auto simp: resize_all_windows_def Let_def split: prod.splits sum.splits)




subsection \<open>Which windows a batch reaches\<close>

lemma dispatch_restored:
  "restored (call_log (snd (dispatch c w))) = restored (call_log w) @ show_target c"
  by (cases c) (simp_all add: dispatch_def effect_def Let_def restored_def)

lemma sleep_restored: "restored (call_log (snd (sleep ms w))) = restored (call_log w)"
  by (simp add: sleep_def restored_def)

lemma place_restored:
  "restored (call_log (snd (bind_io (get_window_rect h)
      (\<lambda>r. dispatch (SetWindowPos h (f r) (g r) cx cy flags)) w))) = restored (call_log w)"
  by (simp add: bind_io_def get_window_rect_def dispatch_def effect_def Let_def restored_def)

lemma seq_io_restored:
  assumes "\<forall>m \<in> set ms. \<forall>w. restored (call_log (snd (m w))) = restored (call_log w)"
  shows "restored (call_log (snd (seq_io ms w))) = restored (call_log w)"
  using assms
proof (induction ms arbitrary: w)
  case Nil
  show ?case by simp
next
  case (Cons m ms)
  obtain r w' where mw: "m w = (r, w')" by (cases "m w")
  from Cons.prems have "restored (call_log (snd (m w))) = restored (call_log w)" by simp
  with mw have here: "restored (call_log w') = restored (call_log w)" by simp
  from Cons.prems have "\<forall>m \<in> set ms. \<forall>w. restored (call_log (snd (m w))) = restored (call_log w)"
    by simp
  from Cons.IH [OF this] have "restored (call_log (snd (seq_io ms w'))) = restored (call_log w')" .
  with here mw show ?case
    by (cases r) simp_all
qed

lemma seq_io_restore_first:
  assumes "\<forall>m \<in> set ms. \<forall>w. restored (call_log (snd (m w))) = restored (call_log w)"
  shows "restored (call_log (snd (seq_io (dispatch (ShowWindow h cmd) # ms) w))) =
           restored (call_log w) @ [h]"
proof -
  obtain r w' where mw: "dispatch (ShowWindow h cmd) w = (r, w')"
    by (cases "dispatch (ShowWindow h cmd) w")
  with dispatch_restored [of "ShowWindow h cmd" w]
  have here: "restored (call_log w') = restored (call_log w) @ [h]" by simp
  from seq_io_restored [OF assms] have "restored (call_log (snd (seq_io ms w'))) = restored (call_log w')" .
  with here mw show ?thesis
    by (cases r) simp_all
qed

lemma zoom_body_restored:
  "restored (call_log (snd (zoom_body steps (h, t) w))) = restored (call_log w) @ [h]"
  unfolding zoom_body_def prod.case append.simps
  by (rule seq_io_restore_first) (auto simp: dispatch_restored sleep_restored)

lemma resize_body_restored:
  "restored (call_log (snd (resize_body width height (h, t) w))) = restored (call_log w) @ [h]"
  unfolding resize_body_def prod.case Let_def
  by (rule seq_io_restore_first) (auto simp: sleep_restored place_restored)

lemma navigate_body_restored:
  "restored (call_log (snd (navigate_body url (h, t) w))) = restored (call_log w) @ [h]"
  unfolding navigate_body_def prod.case
  by (rule seq_io_restore_first) (auto simp: dispatch_restored sleep_restored)

lemma batch_restored:
  assumes "\<And>h t w. restored (call_log (snd (body (h, t) w))) = restored (call_log w) @ [h]"
  shows "restored (call_log (snd (for_each (\<lambda>win. try_except (body win)) xs w))) =
           restored (call_log w) @ map fst xs"
proof (induction xs arbitrary: w)
  case Nil
  show ?case by (simp add: for_each_Nil)
next
  case (Cons x xs)
  obtain h t where x: "x = (h, t)" by (cases x)
  show ?case
    by (simp add: for_each_try Cons.IH x assms)
qed

lemma zoom_all_snd:
  "snd (apply_zoom_to_all zoom_percent w) =
     (case zoom_steps_for zoom_percent of
        Inr steps \<Rightarrow> snd (for_each (\<lambda>win. try_except (zoom_body steps win)) (get_profile_windows w) w)
      | Inl e \<Rightarrow> w)"
  by (simp add: apply_zoom_to_all_def Let_def for_each_Nil split: prod.splits sum.splits)

text \<open>
  The three actions whose loop body stands in a \<open>try\<close> start the sub-sequence of every
  window of the profile set, in order, whichever calls raise.
\<close>

lemma caught_batches_reach_every_window:
  "restored (call_log (snd (apply_zoom_to_all zoom_percent w))) =
     restored (call_log w) @ map fst (get_profile_windows w)"
  "restored (call_log (snd (resize_all_windows width height w))) =
     restored (call_log w) @ map fst (get_profile_windows w)"
  "url \<noteq> [] \<Longrightarrow> strip url \<noteq> [] \<Longrightarrow>
   restored (call_log (snd (open_url_in_all url False zoom_percent w))) =
     restored (call_log w) @ map fst (get_profile_windows w)"
proof -
  from zoom_steps_for_total [of zoom_percent] obtain steps
    where st: "zoom_steps_for zoom_percent = Inr steps" ..
  show "restored (call_log (snd (apply_zoom_to_all zoom_percent w))) =
     restored (call_log w) @ map fst (get_profile_windows w)"
    by (simp add: zoom_all_snd st batch_restored [of "zoom_body steps"] zoom_body_restored)
  show "restored (call_log (snd (resize_all_windows width height w))) =
     restored (call_log w) @ map fst (get_profile_windows w)"
    by (simp add: resize_all_snd batch_restored [of "resize_body width height"]
        resize_body_restored)
  show "restored (call_log (snd (open_url_in_all url False zoom_percent w))) =
     restored (call_log w) @ map fst (get_profile_windows w)"
    if "url \<noteq> []" "strip url \<noteq> []"
  proof -
    have "snd (open_url_in_all url False zoom_percent w) =
        snd (for_each (\<lambda>win. try_except (navigate_body (with_scheme (strip url)) win))
          (get_profile_windows w) w)"
      using that
      by (simp add: open_url_in_all_def Let_def for_each_Nil split: prod.splits sum.splits)
    then show ?thesis
      by (simp add: batch_restored [of "navigate_body (with_scheme (strip url))"]
          navigate_body_restored)
  qed
qed


section \<open>The position action and the planner\<close>




section \<open>Exceptions inside a batch\<close>

lemma ctypes_fields:
  "faults ctypes_world = (\<lambda>l c. ctypes_raises 32 c)"
  "call_log ctypes_world = []"
  "get_work_area ctypes_world = (1920, 1040)"
  "window_rect ctypes_world h =
     \<lparr>rect_left = 100, rect_top = 200, rect_right = 650, rect_bottom = 800\<rparr>"
  by (simp_all add: ctypes_world_def demo_world_def get_work_area_def)

lemma wide_not_marshalled:
  assumes "bits \<le> 64"
  shows "\<not> marshals bits WIDE"
proof -
  from assms have "(2::int) ^ bits \<le> 2 ^ 64"
    by (intro power_increasing) simp_all
  then show ?thesis
    by (simp add: marshals_def WIDE_def)
qed

lemma wide_grid_two: "grid_dims wide_settings 1920 1040 2 = Some (Inr (2, 1))"
proof -
  have "auto_grid wide_settings 1920 1040 = Inr (1, 1)"
    by (simp add: auto_grid_def wide_settings_def DEFAULT_SETTINGS_def WIDE_def)
  moreover have "grow_cols 1 1 2 = Some 2"
    by (simp add: grow_cols.simps)
  ultimately show ?thesis
    by (simp add: grid_dims_def)
qed

lemma wide_cell: "cell_at wide_settings 2 0 = \<lparr>cell_x = 0, cell_y = 0, cell_w = WIDE, cell_h = 600\<rparr>"
  by (simp add: cell_at_def wide_settings_def DEFAULT_SETTINGS_def)

lemma raises_here:
  "\<not> ctypes_raises 32 (ShowWindow 102 9)"
  "\<not> ctypes_raises 32 (ShowWindow 101 9)"
  "\<not> ctypes_raises 32 (GetWindowRect 102)"
  "\<not> ctypes_raises 32 (GetWindowRect 101)"
  "ctypes_raises 32 (SetWindowPos h x y WIDE cy flags)"
  using wide_not_marshalled [of 32]
  by (simp_all add: ctypes_raises_def marshals_def)

text \<open>
  C1 at the failing input. The settings hold a width of \<open>2 ** 64\<close>, which the binding
  cannot marshal: \<open>SetWindowPos\<close> raises for the first window. The position action has
  no \<open>try\<close> in its loop: the exception leaves the action after three calls and window
  101 is never reached. The resize action makes the same call with the same width inside
  a \<open>try\<close>: it goes on to window 101 and returns.
\<close>

theorem position_aborts_on_failure:
  "get_profile_windows ctypes_world = [(102, ''Mimic 7''), (101, ''AB12 - Chromium'')] \<and>
   position_windows wide_settings ctypes_world =
     Some (Inl (Raised (SetWindowPos 102 0 0 WIDE 600 4)),
           ctypes_world\<lparr>call_log :=
             [ShowWindow 102 9, Sleep 30, SetWindowPos 102 0 0 WIDE 600 4]\<rparr>) \<and>
   restored (call_log (snd (resize_all_windows WIDE 600 ctypes_world))) = [102, 101] \<and>
   fst (resize_all_windows WIDE 600 ctypes_world) = Inr 2"
proof -
  have p: "position_windows wide_settings ctypes_world =
     Some (Inl (Raised (SetWindowPos 102 0 0 WIDE 600 4)),
           ctypes_world\<lparr>call_log :=
             [ShowWindow 102 9, Sleep 30, SetWindowPos 102 0 0 WIDE 600 4]\<rparr>)"
    by (simp add: position_windows_def ctypes_profile_windows ctypes_fields wide_grid_two
        for_each_Cons for_each_Nil position_window_def wide_cell dispatch_def sleep_def
        effect_def Let_def SW_RESTORE_def SWP_NOZORDER_def raises_here)
  have "restored (call_log ctypes_world) = []"
    by (simp add: ctypes_fields restored_def)
  then have r: "restored (call_log (snd (resize_all_windows WIDE 600 ctypes_world))) = [102, 101]"
    by (simp add: caught_batches_reach_every_window ctypes_profile_windows)
  have n: "fst (resize_all_windows WIDE 600 ctypes_world) = Inr 2"
    using resize_returns [of WIDE 600 ctypes_world] by (simp add: ctypes_profile_windows)
  from ctypes_profile_windows p r n show ?thesis by (intro conjI)
qed


subsection \<open>What the actions return\<close>







end
